theory Spec2Isabelle
  imports Complex_Main "HOL-Library.Sublist"
begin

section \<open>Card similarity search: the corpus pipeline and the ranking\<close>

text \<open>
  A shallow embedding of the notebook \<^verbatim>\<open>CardSimilarity.ipynb\<close>: the text
  extractor \<^verbatim>\<open>getRawText\<close>, the normalizer \<^verbatim>\<open>preprocessText\<close>, the
  exclusion filter \<^verbatim>\<open>isExcluded\<close>, the corpus builder \<^verbatim>\<open>constructCorpus\<close>
  and the ranking functions \<^verbatim>\<open>getSimilarTexts\<close> and \<^verbatim>\<open>getSimilarCards\<close>.

  The notebook's global variables (\<^verbatim>\<open>cards_dict\<close>, \<^verbatim>\<open>cardNames\<close>,
  \<^verbatim>\<open>cardTexts\<close>, \<^verbatim>\<open>tfidf\<close>, \<^verbatim>\<open>tfs\<close>) are explicit arguments here.
  A Python exception is the \<open>Inl\<close> branch of a sum.
\<close>

subsection \<open>Data model\<close>

text \<open>
  A face is a JSON object; the code reads its keys \<^verbatim>\<open>text\<close>, \<^verbatim>\<open>types\<close> and
  \<^verbatim>\<open>printings\<close>, each of which may be absent (\<open>None\<close>). The repository
  \<^verbatim>\<open>cards_dict['data']\<close> is a dictionary from card names to lists of faces; it is
  kept as an association list because the corpus follows its iteration order. A
  Python dictionary has no repeated key; lookup is \<open>map_of\<close>.

  A Python string is a sequence of code points. The model's strings are lists of
  \<open>char\<close>, read as the code points below 256.
\<close>

datatype py_error = KeyError | IndexError

record face =
  face_text :: "string option"
  face_types :: "string list option"
  face_printings :: "string list option"

type_synonym repository = "(string \<times> face list) list"

subsection \<open>Python string operations\<close>

text \<open>
  \<^verbatim>\<open>sep.join(parts)\<close>.
\<close>

fun str_join :: "string \<Rightarrow> string list \<Rightarrow> string" where
  "str_join sep [] = []"
| "str_join sep [p] = p"
| "str_join sep (p # q # ps) = p @ sep @ str_join sep (q # ps)"

text \<open>
  \<^verbatim>\<open>s.split(sep)\<close> for a non-empty separator: the pieces between the
  non-overlapping occurrences of \<open>sep\<close>, found from left to right. The
  accumulator holds the piece being read. (Python raises \<^verbatim>\<open>ValueError\<close> for an
  empty separator; the program only ever splits on \<^verbatim>\<open>" // "\<close>.)
\<close>

fun split_scan :: "string \<Rightarrow> string \<Rightarrow> string \<Rightarrow> string list" where
  "split_scan sep piece [] = [piece]"
| "split_scan sep piece (c # cs) =
     (if sep \<noteq> [] \<and> prefix sep (c # cs)
      then piece # split_scan sep [] (drop (length sep - 1) cs)
      else split_scan sep (piece @ [c]) cs)"

definition str_split :: "string \<Rightarrow> string \<Rightarrow> string list" where
  "str_split s sep = split_scan sep [] s"

text \<open>
  \<^verbatim>\<open>s.replace(old, new)\<close>: every non-overlapping occurrence of \<open>old\<close>, from
  left to right, becomes \<open>new\<close> (\<open>replace_scan\<close>, for an \<open>old\<close> that is not
  empty). For an empty \<open>old\<close> Python puts \<open>new\<close> before every character and at
  the end.
\<close>

fun replace_scan :: "string \<Rightarrow> string \<Rightarrow> string \<Rightarrow> string" where
  "replace_scan old new [] = []"
| "replace_scan old new (c # cs) =
     (if prefix old (c # cs)
      then new @ replace_scan old new (drop (length old - 1) cs)
      else c # replace_scan old new cs)"

definition str_replace :: "string \<Rightarrow> string \<Rightarrow> string \<Rightarrow> string" where
  "str_replace s old new =
     (if old = [] then new @ concat (map (\<lambda>c. c # new) s) else replace_scan old new s)"

text \<open>
  \<^verbatim>\<open>s.lower()\<close> on code points below 256: the letters A to Z and the
  Latin-1 capitals U+00C0 to U+00DE (but not the multiplication sign U+00D7) move
  up by 32; every other code point stays.
\<close>

definition lower_char :: "char \<Rightarrow> char" where
  "lower_char c =
     (let n = (of_char c :: nat)
      in if (65 \<le> n \<and> n \<le> 90) \<or> (192 \<le> n \<and> n \<le> 222 \<and> n \<noteq> 215)
         then char_of (n + 32) else c)"

definition str_lower :: "string \<Rightarrow> string" where
  "str_lower s = map lower_char s"

text \<open>
  The deletion table: \<^verbatim>\<open>punct = "!\"#$%&'()*,.:;<=>?@[\]^_`|~"\<close> and
  \<^verbatim>\<open>translator = str.maketrans('', '', punct)\<close>. The Python literal holds 27
  characters (a backslash before \<^verbatim>\<open>]\<close> is no escape, so the backslash is one of
  them); the braces, the slash, plus and minus are not among them.
\<close>

definition punct :: "string" where
  "punct =
     [CHR 0x21, CHR 0x22, CHR 0x23, CHR 0x24, CHR 0x25, CHR 0x26, CHR 0x27, CHR 0x28,
      CHR 0x29, CHR 0x2A, CHR 0x2C, CHR 0x2E, CHR 0x3A, CHR 0x3B, CHR 0x3C, CHR 0x3D,
      CHR 0x3E, CHR 0x3F, CHR 0x40, CHR 0x5B, CHR 0x5C, CHR 0x5D, CHR 0x5E, CHR 0x5F,
      CHR 0x60, CHR 0x7C, CHR 0x7E]"

definition translate :: "string \<Rightarrow> string" where
  "translate s = filter (\<lambda>c. c \<notin> set punct) s"

subsection \<open>Text extractor, normalizer and exclusion filter\<close>

text \<open>
  \<^verbatim>\<open>
  def getRawText(cardName_str):
      cardEntry = cards_dict['data'][cardName_str]
      return " ".join([ face['text'] for face in cardEntry if 'text' in face.keys()])
  \<close>
\<close>

definition getRawText :: "repository \<Rightarrow> string \<Rightarrow> py_error + string" where
  "getRawText cards cardName_str =
     (case map_of cards cardName_str of
        None \<Rightarrow> Inl KeyError
      | Some cardEntry \<Rightarrow> Inr (str_join '' '' (List.map_filter face_text cardEntry)))"

text \<open>
  \<^verbatim>\<open>
  def preprocessText(input_text, cardName):
      namelessText = input_text
      names = cardName.split(" // ")
      for name in names:
          namelessText = namelessText.replace(name, '')
      lowerText = namelessText.lower()
      noPunctText = lowerText.translate(translator)
      return noPunctText
  \<close>
\<close>

definition preprocessText :: "string \<Rightarrow> string \<Rightarrow> string" where
  "preprocessText input_text cardName =
     (let names = str_split cardName '' // '';
          namelessText = foldl (\<lambda>t name. str_replace t name []) input_text names;
          lowerText = str_lower namelessText;
          noPunctText = translate lowerText
      in noPunctText)"

text \<open>
  \<^verbatim>\<open>
  def isExcluded(cardName_str):
      cardEntry = cards_dict['data'][cardName_str][0]
      if 'Plane' in cardEntry['types'] or 'Scheme' in cardEntry['types']: return True
      excludedSets = {"PVAN", "PCEL", "CMB1", "UNH", "UST", "UND", "UGL"}
      if not set(cardEntry['printings']).isdisjoint(excludedSets): return True
      return False
  \<close>
  Only the first face is read. A name that is no key, an empty face list and a
  first face without \<^verbatim>\<open>types\<close> or \<^verbatim>\<open>printings\<close> raise.
\<close>

definition excludedSets :: "string set" where
  "excludedSets = {''PVAN'', ''PCEL'', ''CMB1'', ''UNH'', ''UST'', ''UND'', ''UGL''}"

definition isExcluded :: "repository \<Rightarrow> string \<Rightarrow> py_error + bool" where
  "isExcluded cards cardName_str =
     (case map_of cards cardName_str of
        None \<Rightarrow> Inl KeyError
      | Some [] \<Rightarrow> Inl IndexError
      | Some (cardEntry # _) \<Rightarrow>
          (case face_types cardEntry of
             None \<Rightarrow> Inl KeyError
           | Some tys \<Rightarrow>
               if ''Plane'' \<in> set tys \<or> ''Scheme'' \<in> set tys then Inr True
               else (case face_printings cardEntry of
                       None \<Rightarrow> Inl KeyError
                     | Some ps \<Rightarrow>
                         if set ps \<inter> excludedSets \<noteq> {} then Inr True else Inr False)))"

subsection \<open>Corpus builder\<close>

text \<open>
  \<^verbatim>\<open>
  def constructCorpus():
      cardNames = []
      cardTexts = []
      card_names = cards_dict["data"].keys()
      for cardName in card_names:
          if isExcluded(cardName): continue
          text = getRawText(cardName)
          cleanText = preprocessText(text, cardName)
          cardNames.append(cardName)
          cardTexts.append(cleanText)
      return cardNames, cardTexts
  \<close>
  The loop is a recursion over the keys still to visit, with the two lists as
  its state; an exception in the body ends it.
\<close>

fun corpus_loop ::
  "repository \<Rightarrow> string list \<Rightarrow> string list \<times> string list \<Rightarrow>
   py_error + (string list \<times> string list)" where
  "corpus_loop cards [] (cardNames, cardTexts) = Inr (cardNames, cardTexts)"
| "corpus_loop cards (cardName # rest) (cardNames, cardTexts) =
     (case isExcluded cards cardName of
        Inl e \<Rightarrow> Inl e
      | Inr True \<Rightarrow> corpus_loop cards rest (cardNames, cardTexts)
      | Inr False \<Rightarrow>
          (case getRawText cards cardName of
             Inl e \<Rightarrow> Inl e
           | Inr txt \<Rightarrow>
               corpus_loop cards rest
                 (cardNames @ [cardName], cardTexts @ [preprocessText txt cardName])))"

definition constructCorpus :: "repository \<Rightarrow> py_error + (string list \<times> string list)" where
  "constructCorpus cards = corpus_loop cards (map fst cards) ([], [])"

subsection \<open>Ranking\<close>

text \<open>
  The slice \<^verbatim>\<open>a[:stop:-1]\<close>, as CPython adjusts it for a sequence of length
  \<open>len\<close> and step \<open>-1\<close>: the start is the last index; a negative \<open>stop\<close> counts
  from the end and is clamped to \<open>-1\<close>, a \<open>stop\<close> of \<open>len\<close> or more is clamped to
  \<open>len - 1\<close>; the result holds the elements at start, start - 1, ... down to
  (and without) the adjusted stop.
\<close>

definition slice_backwards :: "'a list \<Rightarrow> int \<Rightarrow> 'a list" where
  "slice_backwards a stop =
     (let len = int (length a);
          stop' = (if stop < 0 then (if stop + len < 0 then - 1 else stop + len)
                   else if stop \<ge> len then len - 1 else stop)
      in map (\<lambda>i. a ! i) (rev [nat (stop' + 1) ..< length a]))"

text \<open>
  \<^verbatim>\<open>xs[i]\<close> for an index that is not negative, and a list comprehension whose
  element expression may raise.
\<close>

definition list_get :: "'a list \<Rightarrow> nat \<Rightarrow> py_error + 'a" where
  "list_get xs i = (if i < length xs then Inr (xs ! i) else Inl IndexError)"

fun comprehension :: "('a \<Rightarrow> py_error + 'b) \<Rightarrow> 'a list \<Rightarrow> py_error + 'b list" where
  "comprehension f [] = Inr []"
| "comprehension f (x # xs) =
     (case f x of
        Inl e \<Rightarrow> Inl e
      | Inr y \<Rightarrow> (case comprehension f xs of Inl e \<Rightarrow> Inl e | Inr ys \<Rightarrow> Inr (y # ys)))"

text \<open>
  Two library calls stand between the corpus and the ranking, and both are
  parameters of the model.

  \<^item> \<open>cosine q d\<close> is the entry that
    \<^verbatim>\<open>cosine_similarity(tfidf.transform([q]), tfs)\<close> holds for a corpus document
    \<open>d\<close>: scikit-learn's TF-IDF vectorizer, fitted once on the corpus with the
    notebook's tokenizer and stop words, maps equal texts to equal rows, so the
    entry is a function of the query and the document. A finite float is the
    real number it denotes, and floats compare as these reals do.
  \<^item> \<open>argsort\<close> is numpy's \<^verbatim>\<open>ndarray.argsort()\<close>: the indices of the array in an
    order that sorts it ascending. numpy's default sort promises no order among
    equal elements, so the contract \<open>argsort_ok\<close> says no more than that.
\<close>

definition argsort_ok :: "(real list \<Rightarrow> nat list) \<Rightarrow> bool" where
  "argsort_ok argsort \<longleftrightarrow>
     (\<forall>xs. distinct (argsort xs) \<and> set (argsort xs) = {0..<length xs} \<and>
           sorted (map (\<lambda>i. xs ! i) (argsort xs)))"

text \<open>
  \<^verbatim>\<open>
  def getSimilarTexts(cardText, n):
      response = tfidf.transform([cardText])
      cosine_similarities = cosine_similarity(response, tfs).flatten()
      related_docs_indices = cosine_similarities.argsort()[:-n-1:-1]
      closest = [cardNames[idx] for idx in related_docs_indices]
      return closest
  \<close>
\<close>

definition cosine_similarities :: "(string \<Rightarrow> string \<Rightarrow> real) \<Rightarrow> string list \<Rightarrow> string \<Rightarrow> real list" where
  "cosine_similarities cosine cardTexts cardText = map (cosine cardText) cardTexts"

definition related_docs_indices ::
  "(real list \<Rightarrow> nat list) \<Rightarrow> (string \<Rightarrow> string \<Rightarrow> real) \<Rightarrow> string list \<Rightarrow> string \<Rightarrow> int \<Rightarrow> nat list" where
  "related_docs_indices argsort cosine cardTexts cardText n =
     slice_backwards (argsort (cosine_similarities cosine cardTexts cardText)) (- n - 1)"

definition getSimilarTexts ::
  "(real list \<Rightarrow> nat list) \<Rightarrow> (string \<Rightarrow> string \<Rightarrow> real) \<Rightarrow> string list \<times> string list \<Rightarrow>
   string \<Rightarrow> int \<Rightarrow> py_error + string list" where
  "getSimilarTexts argsort cosine corpus cardText n =
     (case corpus of (cardNames, cardTexts) \<Rightarrow>
        comprehension (list_get cardNames)
          (related_docs_indices argsort cosine cardTexts cardText n))"

text \<open>
  \<^verbatim>\<open>
  def getSimilarCards(cardName, n):
      cardText = preprocessText(getRawText(cardName), cardName)
      return getSimilarTexts(cardText, n)
  \<close>
\<close>

definition getSimilarCards ::
  "(real list \<Rightarrow> nat list) \<Rightarrow> (string \<Rightarrow> string \<Rightarrow> real) \<Rightarrow> repository \<Rightarrow>
   string list \<times> string list \<Rightarrow> string \<Rightarrow> int \<Rightarrow> py_error + string list" where
  "getSimilarCards argsort cosine cards corpus cardName n =
     (case getRawText cards cardName of
        Inl e \<Rightarrow> Inl e
      | Inr raw \<Rightarrow> getSimilarTexts argsort cosine corpus (preprocessText raw cardName) n)"

subsection \<open>Instances of the library parameters and sample data\<close>

text \<open>
  One argsort that meets the contract, for evaluating the ranking at concrete
  inputs: insertion sort, which keeps equal elements in index order. It is an
  instance and no more: numpy's default sort is not stable and may order equal
  scores differently, so no theorem about the code is stated of it. (The
  notebook's own output shows one such order: for \<^verbatim>\<open>Giant Growth\<close> it lists
  \<^verbatim>\<open>Giant Growth\<close> before \<^verbatim>\<open>Brute Force\<close>, two cards with the same text,
  the second of which comes first in the card file.)
\<close>

definition insertion_argsort :: "real list \<Rightarrow> nat list" where
  "insertion_argsort xs = sort_key (\<lambda>i. xs ! i) [0..<length xs]"

text \<open>
  A similarity for evaluating the ranking at concrete inputs: a document that is
  the query itself scores 1 (its cosine with itself, when it has a vocabulary
  token), any other document scores 0.
\<close>

definition exact_match :: "string \<Rightarrow> string \<Rightarrow> real" where
  "exact_match q d = (if q = d then 1 else 0)"

text \<open>
  Sample data. \<open>growth_cards\<close> holds two cards with the same text and
  \<open>growth_corpus\<close> is the corpus built from it. \<open>sample_cards\<close> adds a card
  printed in an excluded set, a two-faced card whose second face alone carries an
  excluded type and an excluded printing, and a card without any text field;
  \<open>sample_corpus\<close> is its corpus.
\<close>

definition pump_text :: "string" where
  "pump_text = ''Target creature gets +3/+3 until end of turn.''"

definition pump_document :: "string" where
  "pump_document = ''target creature gets +3/+3 until end of turn''"

definition growth_cards :: "repository" where
  "growth_cards =
     [(''Brute Force'',
         [\<lparr>face_text = Some pump_text, face_types = Some [''Instant''],
           face_printings = Some [''PLC'']\<rparr>]),
      (''Giant Growth'',
         [\<lparr>face_text = Some pump_text, face_types = Some [''Instant''],
           face_printings = Some [''LEA'', ''M10'']\<rparr>])]"

definition growth_corpus :: "string list \<times> string list" where
  "growth_corpus =
     ([''Brute Force'', ''Giant Growth''], [pump_document, pump_document])"

definition sample_cards :: "repository" where
  "sample_cards =
     [(''Brute Force'',
         [\<lparr>face_text = Some pump_text, face_types = Some [''Instant''],
           face_printings = Some [''PLC'']\<rparr>]),
      (''Chaos Confetti'',
         [\<lparr>face_text = Some ''{4}, {T}: Tear Chaos Confetti into pieces.'',
           face_types = Some [''Artifact''], face_printings = Some [''UGL'']\<rparr>]),
      (''Spark // Realm'',
         [\<lparr>face_text = Some ''Spark deals 2 damage to any target.'',
           face_types = Some [''Instant''], face_printings = Some [''APC'']\<rparr>,
          \<lparr>face_text = Some ''Tap target permanent.'',
           face_types = Some [''Plane''], face_printings = Some [''UNH'']\<rparr>]),
      (''Giant Growth'',
         [\<lparr>face_text = Some pump_text, face_types = Some [''Instant''],
           face_printings = Some [''LEA'', ''M10'']\<rparr>]),
      (''Grizzly Bears'',
         [\<lparr>face_text = None, face_types = Some [''Creature''],
           face_printings = Some [''LEA'']\<rparr>])]"

definition sample_corpus :: "string list \<times> string list" where
  "sample_corpus =
     ([''Brute Force'', ''Spark // Realm'', ''Giant Growth'', ''Grizzly Bears''],
      [pump_document,
       '' deals 2 damage to any target tap target permanent'',
       pump_document,
       []])"

section \<open>Properties\<close>

subsection \<open>The normalizer\<close>

lemma replace_scan_absent: "\<not> sublist old s \<Longrightarrow> replace_scan old new s = s"
proof (induction s)
  case Nil
  then show ?case by simp
next
  case (Cons c cs)
  from Cons.prems have np: "\<not> prefix old (c # cs)" and ns: "\<not> sublist old cs"
    by (auto simp: sublist_Cons_right)
  with Cons.IH show ?case by simp
qed

lemma concat_singletons: "concat (map (\<lambda>c. [c]) s) = s"
  by (induction s) simp_all

lemma str_replace_absent: "old = [] \<or> \<not> sublist old s \<Longrightarrow> str_replace s old [] = s"
  by (auto simp: str_replace_def concat_singletons replace_scan_absent)

lemma remove_names_absent:
  "\<forall>name \<in> set names. name = [] \<or> \<not> sublist name s \<Longrightarrow>
   foldl (\<lambda>t name. str_replace t name []) s names = s"
  by (induction names) (simp_all add: str_replace_absent)

lemma preprocessText_absent:
  "\<forall>name \<in> set (str_split cardName '' // ''). name = [] \<or> \<not> sublist name s \<Longrightarrow>
   preprocessText s cardName = translate (str_lower s)"
  by (simp add: preprocessText_def remove_names_absent)

lemma tap_for_white: "translate (str_lower ''{T}: Add {W}.'') = ''{t} add {w}''"
  by code_simp

lemma lower_char_idem: "lower_char (lower_char c) = lower_char c"
  by (auto simp: lower_char_def Let_def)

lemma str_lower_translate_lower: "str_lower (translate (str_lower s)) = translate (str_lower s)"
  by (induction s) (simp_all add: str_lower_def translate_def lower_char_idem)

lemma translate_idem: "translate (translate s) = translate s"
  by (simp add: translate_def)

lemma preprocessText_fixed:
  assumes "\<forall>name \<in> set (str_split nm '' // ''). name = [] \<or> \<not> sublist name (preprocessText s nm0)"
  shows "preprocessText (preprocessText s nm0) nm = preprocessText s nm0"
proof -
  let ?t = "preprocessText s nm0"
  obtain u where t: "?t = translate (str_lower u)"
    by (simp add: preprocessText_def)
  have "preprocessText ?t nm = translate (str_lower ?t)"
    using assms by (rule preprocessText_absent)
  also have "\<dots> = ?t"
    by (simp add: t str_lower_translate_lower translate_idem)
  finally show ?thesis .
qed


subsection \<open>The exclusion filter and the corpus\<close>

lemma corpus_loop_result:
  "corpus_loop cards keys (ns, ts) = Inr (ns', ts') \<Longrightarrow>
   ns' = ns @ filter (\<lambda>k. isExcluded cards k = Inr False) keys \<and>
   ts' = ts @ map (\<lambda>k. case getRawText cards k of Inr raw \<Rightarrow> preprocessText raw k | Inl e \<Rightarrow> [])
               (filter (\<lambda>k. isExcluded cards k = Inr False) keys)"
proof (induction keys arbitrary: ns ts)
  case Nil
  then show ?case by simp
next
  case (Cons k keys)
  show ?case
  proof (cases "isExcluded cards k")
    case (Inl e)
    with Cons.prems show ?thesis by simp
  next
    case (Inr b)
    show ?thesis
    proof (cases b)
      case True
      with Inr Cons.prems have "corpus_loop cards keys (ns, ts) = Inr (ns', ts')" by simp
      from Cons.IH[OF this] Inr True show ?thesis by simp
    next
      case False
      with Inr Cons.prems obtain raw where raw: "getRawText cards k = Inr raw"
        and loop: "corpus_loop cards keys (ns @ [k], ts @ [preprocessText raw k]) = Inr (ns', ts')"
        by (auto split: sum.splits)
      from Cons.IH[OF loop] Inr False raw show ?thesis by simp
    qed
  qed
qed

lemma constructCorpus_names:
  "constructCorpus cards = Inr (ns, ts) \<Longrightarrow>
   ns = filter (\<lambda>k. isExcluded cards k = Inr False) (map fst cards)"
  using corpus_loop_result[of cards "map fst cards" "[]" "[]" ns ts]
  by (simp add: constructCorpus_def)

lemma constructCorpus_texts:
  "constructCorpus cards = Inr (ns, ts) \<Longrightarrow>
   ts = map (\<lambda>k. case getRawText cards k of Inr raw \<Rightarrow> preprocessText raw k | Inl e \<Rightarrow> []) ns"
  using corpus_loop_result[of cards "map fst cards" "[]" "[]" ns ts]
  by (simp add: constructCorpus_def)

lemma isExcluded_False_raw:
  "isExcluded cards k = Inr False \<Longrightarrow> \<exists>raw. getRawText cards k = Inr raw"
  by (auto simp: isExcluded_def getRawText_def split: option.splits)

lemma isExcluded_printing:
  assumes "map_of cards name = Some (f # fs)" "face_printings f = Some ps"
    "code \<in> set ps" "code \<in> excludedSets"
  shows "isExcluded cards name \<noteq> Inr False"
  using assms by (auto simp: isExcluded_def split: option.splits)

lemma isExcluded_first_face:
  assumes "map_of cards name = Some (f # fs)"
    and "face_types f = Some tys" and "''Plane'' \<notin> set tys" and "''Scheme'' \<notin> set tys"
    and "face_printings f = Some ps" and "set ps \<inter> excludedSets = {}"
  shows "isExcluded cards name = Inr False"
  using assms by (simp add: isExcluded_def)

lemma map_filter_all_None: "\<forall>f \<in> set xs. g f = None \<Longrightarrow> List.map_filter g xs = []"
  by (induction xs) (simp_all add: List.map_filter_simps)

lemma str_replace_empty_text: "str_replace [] old [] = []"
  by (simp add: str_replace_def)

lemma remove_names_empty_text: "foldl (\<lambda>t name. str_replace t name []) [] names = []"
  by (induction names) (simp_all add: str_replace_empty_text)

lemma preprocessText_empty: "preprocessText [] cardName = []"
  by (simp add: preprocessText_def remove_names_empty_text str_lower_def translate_def)

lemma constructCorpus_lengths:
  "constructCorpus cards = Inr (ns, ts) \<Longrightarrow> length ns = length ts"
  using constructCorpus_texts[of cards ns ts] by (metis length_map)


subsection \<open>The slice and the ranking\<close>

lemma map_nth_from: "map (\<lambda>i. a ! i) [m..<length a] = drop m a"
  by (rule nth_equalityI) simp_all

lemma slice_backwards_take:
  "slice_backwards a stop =
     take (length a - nat ((if stop < 0 then (if stop + int (length a) < 0 then - 1 else stop + int (length a))
                   else if stop \<ge> int (length a) then int (length a) - 1 else stop) + 1)) (rev a)"
  by (simp add: slice_backwards_def Let_def rev_map[symmetric] map_nth_from rev_drop del: upt_Suc)

lemma slice_backwards_positive:
  assumes "1 \<le> n"
  shows "slice_backwards a (- n - 1) = take (nat n) (rev a)"
proof (cases "int (length a) \<le> n")
  case True
  then have "slice_backwards a (- n - 1) = take (length a) (rev a)"
    using assms by (simp add: slice_backwards_take)
  also have "\<dots> = take (nat n) (rev a)" using True by simp
  finally show ?thesis .
next
  case False
  then have "length a - nat (- n - 1 + int (length a) + 1) = nat n"
    using assms by linarith
  then show ?thesis
    using assms False by (simp add: slice_backwards_take)
qed

lemma slice_backwards_zero: "slice_backwards a (- 0 - 1) = []"
  by (simp add: slice_backwards_take)

lemma slice_backwards_negative:
  assumes "n < 0"
  shows "slice_backwards a (- n - 1) = take (length a - nat (- n)) (rev a)"
proof (cases "- n - 1 \<ge> int (length a)")
  case True
  then show ?thesis using assms by (simp add: slice_backwards_take)
next
  case False
  then have "nat (- n - 1 + 1) = nat (- n)" by simp
  then show ?thesis using assms False by (simp add: slice_backwards_take)
qed

lemma slice_backwards_cases:
  "slice_backwards a (- n - 1) =
     (if 1 \<le> n then take (nat n) (rev a)
      else if n = 0 then [] else take (length a - nat (- n)) (rev a))"
  using slice_backwards_positive[of n a] slice_backwards_zero[of a] slice_backwards_negative[of n a]
  by auto

lemma comprehension_list_get:
  "\<forall>i \<in> set idxs. i < length xs \<Longrightarrow>
   comprehension (list_get xs) idxs = Inr (map (\<lambda>i. xs ! i) idxs)"
  by (induction idxs) (simp_all add: list_get_def)

lemma insertion_argsort_ok: "argsort_ok insertion_argsort"
  by (simp add: argsort_ok_def insertion_argsort_def sorted_sort_key)

lemma argsort_length: "argsort_ok srt \<Longrightarrow> length (srt xs) = length xs"
  by (metis argsort_ok_def card_atLeastLessThan diff_zero distinct_card)

lemma related_in_range:
  assumes "argsort_ok srt"
  shows "set (related_docs_indices srt cosine texts q n) \<subseteq> {0..<length texts}"
proof -
  let ?s = "cosine_similarities cosine texts q"
  have "set (related_docs_indices srt cosine texts q n) \<subseteq> set (rev (srt ?s))"
    unfolding related_docs_indices_def slice_backwards_cases
    by (auto dest: in_set_takeD)
  also have "\<dots> = {0..<length texts}"
    using assms by (simp add: argsort_ok_def cosine_similarities_def)
  finally show ?thesis .
qed

lemma getSimilarTexts_names:
  assumes "argsort_ok srt" and "length names = length texts"
  shows "getSimilarTexts srt cosine (names, texts) q n =
         Inr (map (\<lambda>i. names ! i) (related_docs_indices srt cosine texts q n))"
proof -
  have "\<forall>i \<in> set (related_docs_indices srt cosine texts q n). i < length names"
    using related_in_range[OF assms(1), of cosine texts q n] assms(2) by auto
  then show ?thesis
    by (simp add: getSimilarTexts_def comprehension_list_get)
qed

lemma ranking_sorted:
  assumes "argsort_ok srt"
  shows "sorted_wrt (\<lambda>i j. cosine q (texts ! j) \<le> cosine q (texts ! i)) (rev (srt (cosine_similarities cosine texts q)))"
proof -
  let ?s = "cosine_similarities cosine texts q"
  have rng: "set (srt ?s) = {0..<length texts}"
    using assms by (simp add: argsort_ok_def cosine_similarities_def)
  have "sorted (map (\<lambda>i. ?s ! i) (srt ?s))"
    using assms by (simp add: argsort_ok_def)
  then have "sorted_wrt (\<lambda>i j. ?s ! i \<le> ?s ! j) (srt ?s)"
    by (simp add: sorted_map)
  then have "sorted_wrt (\<lambda>i j. cosine q (texts ! i) \<le> cosine q (texts ! j)) (srt ?s)"
    by (rule sorted_wrt_mono_rel[rotated]) (use rng in \<open>auto simp: cosine_similarities_def\<close>)
  then show ?thesis
    by (simp add: sorted_wrt_rev)
qed

lemma in_top:
  assumes d: "distinct L" and mem: "i \<in> set L"
    and srt: "sorted_wrt (\<lambda>a b. f b \<le> (f a :: real)) L"
    and cnt: "card {j \<in> set L. f i \<le> f j} \<le> k"
  shows "i \<in> set (take k L)"
proof -
  from mem obtain p where p: "p < length L" "L ! p = i"
    by (auto simp: in_set_conv_nth)
  have sub: "set (take (Suc p) L) \<subseteq> {j \<in> set L. f i \<le> f j}"
  proof
    fix x assume "x \<in> set (take (Suc p) L)"
    then obtain r where r: "r < Suc p" "r < length L" "L ! r = x"
      by (auto simp: in_set_conv_nth)
    have "f i \<le> f x"
    proof (cases "r = p")
      case True
      with r p show ?thesis by simp
    next
      case False
      with r have "r < p" by simp
      from sorted_wrt_nth_less[OF srt this p(1)] r p show ?thesis by simp
    qed
    moreover have "x \<in> set L" using r by auto
    ultimately show "x \<in> {j \<in> set L. f i \<le> f j}" by simp
  qed
  have "card (set (take (Suc p) L)) = Suc p"
    using d p(1) by (simp add: distinct_card)
  moreover have "card (set (take (Suc p) L)) \<le> card {j \<in> set L. f i \<le> f j}"
    by (rule card_mono[OF _ sub]) simp
  ultimately have "p < k" using cnt by simp
  with p show ?thesis by (auto simp: in_set_conv_nth)
qed

lemma related_positive:
  "1 \<le> n \<Longrightarrow> related_docs_indices srt cosine texts q n =
     take (nat n) (rev (srt (cosine_similarities cosine texts q)))"
  by (simp add: related_docs_indices_def slice_backwards_positive)

lemma related_prefix:
  "prefix (related_docs_indices srt cosine texts q n)
     (rev (srt (cosine_similarities cosine texts q)))"
  unfolding related_docs_indices_def slice_backwards_cases
  by (simp add: take_is_prefix)

lemma related_sorted:
  assumes "argsort_ok srt"
  shows "sorted_wrt (\<lambda>i j. cosine q (texts ! j) \<le> cosine q (texts ! i))
     (related_docs_indices srt cosine texts q n)"
  using ranking_sorted[OF assms, of cosine q texts]
  unfolding related_docs_indices_def slice_backwards_cases
  by (auto intro: sorted_wrt_take)

subsection \<open>The sample data\<close>

lemma sample_corpus_built: "constructCorpus sample_cards = Inr sample_corpus"
  by code_simp

lemma growth_corpus_built: "constructCorpus growth_cards = Inr growth_corpus"
  by code_simp

lemma sample_lengths: "length (fst sample_corpus) = length (snd sample_corpus)"
  by (simp add: sample_corpus_def)

lemma growth_lengths: "length (fst growth_corpus) = length (snd growth_corpus)"
  by (simp add: growth_corpus_def)

lemma growth_any_similarity:
  "getSimilarCards insertion_argsort cosine growth_cards growth_corpus ''Brute Force'' 1 =
     Inr [''Giant Growth'']"
proof -
  have "getRawText growth_cards ''Brute Force'' = Inr pump_text" by code_simp
  moreover have "preprocessText pump_text ''Brute Force'' = pump_document" by code_simp
  moreover have "insertion_argsort [x, x] = [0, 1]" for x :: real
    by (simp add: insertion_argsort_def upt_rec)
  moreover have "slice_backwards [0, Suc 0] (- 1 - 1) = take (nat 1) (rev [0, Suc 0])"
    by (rule slice_backwards_positive) simp
  ultimately show ?thesis
    by (simp add: getSimilarCards_def getSimilarTexts_def growth_corpus_def related_docs_indices_def
        cosine_similarities_def list_get_def pump_document_def)
qed

lemma growth_ties_any_similarity:
  "getSimilarTexts insertion_argsort cosine growth_corpus q 2 =
     Inr [''Giant Growth'', ''Brute Force'']"
proof -
  have "insertion_argsort [x, x] = [0, 1]" for x :: real
    by (simp add: insertion_argsort_def upt_rec)
  moreover have "slice_backwards [0, Suc 0] (- 2 - 1) = take (nat 2) (rev [0, Suc 0])"
    by (rule slice_backwards_positive) simp
  ultimately show ?thesis
    by (simp add: getSimilarTexts_def growth_corpus_def related_docs_indices_def
        cosine_similarities_def list_get_def)
qed

text \<open>
  Whatever the similarity and whatever order argsort gives to equal scores, a
  request for one result returns the same single name for both cards of
  \<open>growth_cards\<close>, so one of the two is not in its own result.
\<close>

lemma same_text_same_result:
  assumes "argsort_ok srt"
  shows "\<exists>r. getSimilarCards srt cosine growth_cards growth_corpus ''Brute Force'' 1 = Inr r \<and>
             getSimilarCards srt cosine growth_cards growth_corpus ''Giant Growth'' 1 = Inr r \<and>
             length r = 1"
proof -
  let ?L = "rev (srt (cosine_similarities cosine (snd growth_corpus) pump_document))"
  have b: "getRawText growth_cards ''Brute Force'' = Inr pump_text" by code_simp
  have g: "getRawText growth_cards ''Giant Growth'' = Inr pump_text" by code_simp
  have pb: "preprocessText pump_text ''Brute Force'' = pump_document" by code_simp
  have pg: "preprocessText pump_text ''Giant Growth'' = pump_document" by code_simp
  have "length ?L = length (cosine_similarities cosine (snd growth_corpus) pump_document)"
    using argsort_length[OF assms] by simp
  then have "length ?L = 2"
    by (simp add: cosine_similarities_def growth_corpus_def)
  then have len: "length (map (\<lambda>i. fst growth_corpus ! i) (take (nat 1) ?L)) = 1"
    by simp
  have "getSimilarTexts srt cosine (fst growth_corpus, snd growth_corpus) pump_document 1 =
        Inr (map (\<lambda>i. fst growth_corpus ! i) (take (nat 1) ?L))"
    using getSimilarTexts_names[OF assms growth_lengths, of cosine pump_document 1]
    by (simp add: related_positive)
  then show ?thesis
    using len by (simp add: getSimilarCards_def b g pb pg)
qed

section \<open>The claims\<close>

subsection \<open>C1: a card among its own results\<close>

text \<open>
  Claim C1 says that for a card C of the corpus with non-empty text and any
  \<open>k \<ge> 1\<close>, \<^verbatim>\<open>getSimilarCards(C.name, k)\<close> includes C, with score 1.0.

  The code returns the \<open>k\<close> best-scored names and nothing gives C a place
  among them: cards with the same normalized text score the same as C, and the
  notebook's own run for \<^verbatim>\<open>Giant Growth\<close> lists another card first. What
  holds: C is returned, without error, whenever at most \<open>k\<close> corpus documents
  (C's own among them) score at least as high against C's text as C's document
  does. The value of that score is scikit-learn's floating-point result and is
  not part of the model.
\<close>

theorem self_in_top:
  assumes ok: "argsort_ok srt"
    and corpus: "constructCorpus cards = Inr (cardNames, cardTexts)"
    and i: "i < length cardNames"
    and k: "1 \<le> k"
    and few: "length (filter (\<lambda>d. cosine (cardTexts ! i) (cardTexts ! i) \<le> cosine (cardTexts ! i) d)
                        cardTexts) \<le> nat k"
  shows "\<exists>closest. getSimilarCards srt cosine cards (cardNames, cardTexts) (cardNames ! i) k = Inr closest \<and>
                   cardNames ! i \<in> set closest"
proof -
  let ?name = "cardNames ! i"
  let ?q = "cardTexts ! i"
  let ?L = "rev (srt (cosine_similarities cosine cardTexts ?q))"
  let ?f = "\<lambda>j. cosine ?q (cardTexts ! j)"
  have len: "length cardNames = length cardTexts"
    by (rule constructCorpus_lengths[OF corpus])
  have "?name \<in> set cardNames" using i by simp
  then have "isExcluded cards ?name = Inr False"
    using constructCorpus_names[OF corpus] by auto
  then obtain raw where raw: "getRawText cards ?name = Inr raw"
    using isExcluded_False_raw by blast
  have doc: "?q = preprocessText raw ?name"
    using constructCorpus_texts[OF corpus] i raw
    by (metis (no_types, lifting) nth_map sum.simps(6))
  have setL: "set ?L = {0..<length cardTexts}"
    using ok by (simp add: argsort_ok_def cosine_similarities_def)
  have dL: "distinct ?L" using ok by (simp add: argsort_ok_def)
  have "{j \<in> set ?L. ?f i \<le> ?f j} = {j. j < length cardTexts \<and> ?f i \<le> ?f j}"
    using setL by auto
  then have "card {j \<in> set ?L. ?f i \<le> ?f j} \<le> nat k"
    using few by (simp add: length_filter_conv_card)
  moreover have "i \<in> set ?L" using setL i len by simp
  ultimately have "i \<in> set (take (nat k) ?L)"
    using in_top[OF dL _ ranking_sorted[OF ok]] by blast
  then have "?name \<in> set (map (\<lambda>j. cardNames ! j) (take (nat k) ?L))"
    by (simp add: image_iff) blast
  moreover have "getSimilarCards srt cosine cards (cardNames, cardTexts) ?name k =
                 Inr (map (\<lambda>j. cardNames ! j) (take (nat k) ?L))"
    using k by (simp add: getSimilarCards_def raw doc[symmetric] getSimilarTexts_names[OF ok len]
        related_positive)
  ultimately show ?thesis by blast
qed

text \<open>
  In \<open>sample_cards\<close> the card \<^verbatim>\<open>Spark // Realm\<close> is the only one to score as
  high as itself, and it is its own single best match.
\<close>

theorem self_in_top_witness:
  "argsort_ok insertion_argsort \<and>
   constructCorpus sample_cards = Inr sample_corpus \<and>
   (1::nat) < length (fst sample_corpus) \<and> (1::int) \<le> 1 \<and>
   length (filter (\<lambda>d. exact_match (snd sample_corpus ! 1) (snd sample_corpus ! 1)
                        \<le> exact_match (snd sample_corpus ! 1) d) (snd sample_corpus)) = 1 \<and>
   fst sample_corpus ! 1 = ''Spark // Realm'' \<and>
   getSimilarCards insertion_argsort exact_match sample_cards sample_corpus ''Spark // Realm'' 1 =
     Inr [''Spark // Realm'']"
proof -
  have c: "constructCorpus sample_cards = Inr (fst sample_corpus, snd sample_corpus)"
    by (simp add: sample_corpus_built)
  have i: "(1::nat) < length (fst sample_corpus)" by (simp add: sample_corpus_def)
  have k: "(1::int) \<le> 1" by simp
  have f: "length (filter (\<lambda>d. exact_match (snd sample_corpus ! 1) (snd sample_corpus ! 1)
                        \<le> exact_match (snd sample_corpus ! 1) d) (snd sample_corpus)) = 1"
    by code_simp
  have f': "length (filter (\<lambda>d. exact_match (snd sample_corpus ! 1) (snd sample_corpus ! 1)
                        \<le> exact_match (snd sample_corpus ! 1) d) (snd sample_corpus)) \<le> nat 1"
    unfolding f by simp
  have n: "fst sample_corpus ! 1 = ''Spark // Realm''" by (simp add: sample_corpus_def)
  have r: "getSimilarCards insertion_argsort exact_match sample_cards sample_corpus ''Spark // Realm'' 1 =
     Inr [''Spark // Realm'']"
    by code_simp
  from self_in_top[where cosine = exact_match and k = 1, OF insertion_argsort_ok c i k f']
  show ?thesis using insertion_argsort_ok c i f n r by simp
qed

text \<open>
  The claim fails for \<^verbatim>\<open>Brute Force\<close> in the two-card repository
  \<open>growth_cards\<close>: its text is not empty, it is in the corpus, and the single
  best match returned for it is \<^verbatim>\<open>Giant Growth\<close>, the card with the same text.
  (By \<open>growth_any_similarity\<close> the result is the same for every similarity
  function, and by \<open>same_text_same_result\<close> one of the two cards is left out
  of its own result whatever argsort does with equal scores.)
\<close>

theorem self_always_included_counterexample:
  "constructCorpus growth_cards = Inr growth_corpus \<and>
   getRawText growth_cards ''Brute Force'' = Inr pump_text \<and>
   getSimilarCards insertion_argsort exact_match growth_cards growth_corpus ''Brute Force'' 1 =
     Inr [''Giant Growth'']"
  by code_simp

subsection \<open>C2: the order of the ranking\<close>

text \<open>
  Claim C2 says that the ranking of \<^verbatim>\<open>getSimilarTexts\<close> is in descending
  order of cosine score and that entries with equal scores keep their corpus
  order.

  The first half holds for every \<open>n\<close> and every argsort. The second is not
  what the code does: it sorts nothing itself, it reads numpy's ascending
  argsort backwards. The index list behind the returned names is a prefix of the
  reversed argsort (third conjunct), so entries with equal scores appear in the
  reverse of the order argsort gave them, and numpy leaves that order
  unspecified.
\<close>

theorem ranking_descending:
  assumes "argsort_ok srt" and "length cardNames = length cardTexts"
  shows "getSimilarTexts srt cosine (cardNames, cardTexts) q n =
           Inr (map (\<lambda>i. cardNames ! i) (related_docs_indices srt cosine cardTexts q n)) \<and>
         sorted_wrt (\<lambda>i j. cosine q (cardTexts ! j) \<le> cosine q (cardTexts ! i))
           (related_docs_indices srt cosine cardTexts q n) \<and>
         prefix (related_docs_indices srt cosine cardTexts q n)
           (rev (srt (cosine_similarities cosine cardTexts q)))"
  using getSimilarTexts_names[OF assms] related_sorted[OF assms(1)] related_prefix by blast

text \<open>
  With insertion sort as the argsort, the reversed argsort of the pump text's
  scores in \<open>sample_corpus\<close> is 2, 0, 3, 1; the three best matches are the
  entries 2, 0 and 3, with scores 1, 1 and 0.
\<close>

theorem ranking_descending_witness:
  "argsort_ok insertion_argsort \<and> length (fst sample_corpus) = length (snd sample_corpus) \<and>
   related_docs_indices insertion_argsort exact_match (snd sample_corpus) pump_document 3 = [2, 0, 3] \<and>
   map (\<lambda>i. exact_match pump_document (snd sample_corpus ! i)) [2, 0, 3] = [1, 1, 0] \<and>
   rev (insertion_argsort (cosine_similarities exact_match (snd sample_corpus) pump_document)) =
     [2, 0, 3, 1] \<and>
   prefix [2, 0, 3] [2, 0, 3, 1 :: nat] \<and>
   getSimilarTexts insertion_argsort exact_match sample_corpus pump_document 3 =
     Inr [''Giant Growth'', ''Brute Force'', ''Grizzly Bears'']"
proof -
  have i: "related_docs_indices insertion_argsort exact_match (snd sample_corpus) pump_document 3 = [2, 0, 3]"
    by code_simp
  have s: "map (\<lambda>i. exact_match pump_document (snd sample_corpus ! i)) [2, 0, 3] = [1, 1, 0]"
    by code_simp
  have a: "rev (insertion_argsort (cosine_similarities exact_match (snd sample_corpus) pump_document)) =
     [2, 0, 3, 1]"
    by code_simp
  have n: "map (\<lambda>i. fst sample_corpus ! i) [2, 0, 3] = [''Giant Growth'', ''Brute Force'', ''Grizzly Bears'']"
    by code_simp
  from ranking_descending[OF insertion_argsort_ok sample_lengths, of exact_match pump_document 3]
  show ?thesis using insertion_argsort_ok sample_lengths s n unfolding i a by simp
qed

text \<open>
  The corpus of \<open>growth_cards\<close> lists \<^verbatim>\<open>Brute Force\<close> before
  \<^verbatim>\<open>Giant Growth\<close>; both score the same against the pump text, and with an
  argsort that lists the two indices in ascending order the ranking returns
  \<^verbatim>\<open>Giant Growth\<close> first. (By \<open>growth_ties_any_similarity\<close> this is so for
  every similarity function and every query.)
\<close>

theorem ties_in_corpus_order_counterexample:
  "fst growth_corpus = [''Brute Force'', ''Giant Growth''] \<and>
   cosine_similarities exact_match (snd growth_corpus) pump_document = [1, 1] \<and>
   insertion_argsort [1, 1] = [0, 1] \<and>
   getSimilarTexts insertion_argsort exact_match growth_corpus pump_document 2 =
     Inr [''Giant Growth'', ''Brute Force'']"
  by code_simp

subsection \<open>C3: a result count that is not positive\<close>

text \<open>
  Claim C3 says that a similarity request with \<open>n \<le> 0\<close> raises
  \<^verbatim>\<open>InvalidArgumentError\<close> at once and returns no partial result.

  The code never inspects \<open>n\<close>; it only slices with \<^verbatim>\<open>[:-n-1:-1]\<close>. So no
  error is raised: for \<open>n = 0\<close> the result is the empty list, and for \<open>n < 0\<close>
  it is the whole ranking without its \<open>-n\<close> last entries (empty when the corpus
  has no more than \<open>-n\<close> entries). \<^verbatim>\<open>getSimilarCards\<close> adds nothing to this
  but the lookup of the card's text.
\<close>

theorem nonpositive_count_no_error:
  assumes "argsort_ok srt" and "length cardNames = length cardTexts" and "n \<le> 0"
  shows "getSimilarTexts srt cosine (cardNames, cardTexts) q n =
           Inr (map (\<lambda>i. cardNames ! i)
                  (if n = 0 then []
                   else take (length cardTexts - nat (- n))
                          (rev (srt (cosine_similarities cosine cardTexts q))))) \<and>
         (getRawText cards cardName = Inr raw \<longrightarrow>
          getSimilarCards srt cosine cards (cardNames, cardTexts) cardName n =
            getSimilarTexts srt cosine (cardNames, cardTexts) (preprocessText raw cardName) n)"
proof -
  have "length (srt (cosine_similarities cosine cardTexts q)) = length cardTexts"
    using argsort_length[OF assms(1)] by (simp add: cosine_similarities_def)
  then have "getSimilarTexts srt cosine (cardNames, cardTexts) q n =
           Inr (map (\<lambda>i. cardNames ! i)
                  (if n = 0 then []
                   else take (length cardTexts - nat (- n))
                          (rev (srt (cosine_similarities cosine cardTexts q)))))"
    using assms(3) by (simp add: getSimilarTexts_names[OF assms(1,2)] related_docs_indices_def
        slice_backwards_cases)
  then show ?thesis
    by (simp add: getSimilarCards_def)
qed

text \<open>
  With \<open>n = -2\<close> the four-entry ranking of \<open>sample_corpus\<close> loses its last two
  entries.
\<close>

theorem nonpositive_count_no_error_witness:
  "argsort_ok insertion_argsort \<and> length (fst sample_corpus) = length (snd sample_corpus) \<and>
   (- 2 :: int) \<le> 0 \<and>
   getRawText sample_cards ''Giant Growth'' = Inr pump_text \<and>
   getSimilarTexts insertion_argsort exact_match sample_corpus pump_document (- 2) =
     Inr [''Giant Growth'', ''Brute Force''] \<and>
   getSimilarCards insertion_argsort exact_match sample_cards sample_corpus ''Giant Growth'' (- 2) =
     Inr [''Giant Growth'', ''Brute Force'']"
proof -
  have r: "map (\<lambda>i. fst sample_corpus ! i)
             (take (length (snd sample_corpus) - nat (- (- 2)))
                (rev (insertion_argsort (cosine_similarities exact_match (snd sample_corpus) pump_document)))) =
           [''Giant Growth'', ''Brute Force'']"
    by code_simp
  have g: "getRawText sample_cards ''Giant Growth'' = Inr pump_text" by code_simp
  have p: "preprocessText pump_text ''Giant Growth'' = pump_document" by code_simp
  from nonpositive_count_no_error[OF insertion_argsort_ok sample_lengths,
      of "- 2" exact_match pump_document sample_cards "''Giant Growth''" pump_text]
    nonpositive_count_no_error[OF insertion_argsort_ok sample_lengths,
      of "- 2" exact_match "preprocessText pump_text ''Giant Growth''" sample_cards "''Giant Growth''" pump_text]
  show ?thesis using insertion_argsort_ok sample_lengths r g p by simp
qed

text \<open>
  On \<open>growth_corpus\<close> a request for 0 results returns the empty list and a
  request for -1 results returns one name; neither raises.
\<close>

theorem nonpositive_count_raises_counterexample:
  "getSimilarTexts insertion_argsort exact_match growth_corpus pump_document 0 = Inr [] \<and>
   getSimilarTexts insertion_argsort exact_match growth_corpus pump_document (- 1) = Inr [''Giant Growth''] \<and>
   getSimilarCards insertion_argsort exact_match growth_cards growth_corpus ''Giant Growth'' (- 1) =
     Inr [''Giant Growth'']"
  by code_simp

subsection \<open>C4: a shorter ranking is a prefix of a longer one\<close>

text \<open>
  Claim C4: for every query text and all valid result counts \<open>n1 < n2\<close> (valid:
  at least 1), the list \<^verbatim>\<open>getSimilarTexts\<close> returns for \<open>n1\<close> is a prefix of
  the list it returns for \<open>n2\<close>. Neither call raises.
\<close>

theorem ranking_prefix:
  assumes "argsort_ok srt" and "length cardNames = length cardTexts"
    and "1 \<le> n1" and "n1 < n2"
  shows "\<exists>r1 r2. getSimilarTexts srt cosine (cardNames, cardTexts) q n1 = Inr r1 \<and>
                 getSimilarTexts srt cosine (cardNames, cardTexts) q n2 = Inr r2 \<and>
                 prefix r1 r2"
proof -
  let ?L = "rev (srt (cosine_similarities cosine cardTexts q))"
  have r1: "getSimilarTexts srt cosine (cardNames, cardTexts) q n1 =
            Inr (map (\<lambda>i. cardNames ! i) (take (nat n1) ?L))"
    using assms by (simp add: getSimilarTexts_names related_positive)
  have r2: "getSimilarTexts srt cosine (cardNames, cardTexts) q n2 =
            Inr (map (\<lambda>i. cardNames ! i) (take (nat n2) ?L))"
    using assms by (simp add: getSimilarTexts_names related_positive)
  have "nat n1 \<le> nat n2" using assms by simp
  then have "take (nat n1) ?L = take (nat n1) (take (nat n2) ?L)"
    by (simp add: min_def)
  then have "prefix (take (nat n1) ?L) (take (nat n2) ?L)"
    by (metis take_is_prefix)
  then have "prefix (map (\<lambda>i. cardNames ! i) (take (nat n1) ?L))
                    (map (\<lambda>i. cardNames ! i) (take (nat n2) ?L))"
    by (rule map_mono_prefix)
  with r1 r2 show ?thesis by blast
qed

theorem ranking_prefix_witness:
  "argsort_ok insertion_argsort \<and> length (fst sample_corpus) = length (snd sample_corpus) \<and>
   (1::int) \<le> 1 \<and> (1::int) < 3 \<and>
   getSimilarTexts insertion_argsort exact_match sample_corpus pump_document 1 = Inr [''Giant Growth''] \<and>
   getSimilarTexts insertion_argsort exact_match sample_corpus pump_document 3 =
     Inr [''Giant Growth'', ''Brute Force'', ''Grizzly Bears''] \<and>
   prefix [''Giant Growth''] [''Giant Growth'', ''Brute Force'', ''Grizzly Bears'']"
proof -
  have r1: "getSimilarTexts insertion_argsort exact_match sample_corpus pump_document 1 =
            Inr [''Giant Growth'']"
    by code_simp
  have r3: "getSimilarTexts insertion_argsort exact_match sample_corpus pump_document 3 =
            Inr [''Giant Growth'', ''Brute Force'', ''Grizzly Bears'']"
    by code_simp
  from ranking_prefix[OF insertion_argsort_ok sample_lengths, of 1 3 exact_match pump_document]
  show ?thesis using insertion_argsort_ok sample_lengths r1 r3 by simp
qed

subsection \<open>C5: the TF-IDF weights\<close>

text \<open>
  Claim C5 is about the numbers scikit-learn computes in
  \<^verbatim>\<open>TfidfVectorizer(tokenizer=tokenize, stop_words=my_stop_words)\<close> and
  \<^verbatim>\<open>fit_transform\<close>: the notebook holds these two calls and no weighting code of
  its own, and the weights and norms are floating-point values. They enter this
  development only through the parameter \<open>cosine\<close>; no theorem is stated.
\<close>

subsection \<open>C6: symbols survive normalization\<close>

text \<open>
  Claim C6: normalizing \<^verbatim>\<open>{T}: Add {W}.\<close> with a card name that does not occur
  in it gives exactly \<^verbatim>\<open>{t} add {w}\<close>: braces kept, colon and period removed,
  letters lowercased. A name is read as the code reads it: each part between
  \<^verbatim>\<open>" // "\<close> is empty or no substring of the text.
\<close>

theorem symbol_preservation:
  assumes "\<forall>name \<in> set (str_split cardName '' // ''). name = [] \<or> \<not> sublist name ''{T}: Add {W}.''"
  shows "preprocessText ''{T}: Add {W}.'' cardName = ''{t} add {w}''"
  using preprocessText_absent[OF assms] by (simp add: tap_for_white)

theorem symbol_preservation_witness:
  "str_split ''Fire // Ice'' '' // '' = [''Fire'', ''Ice''] \<and>
   \<not> sublist ''Fire'' ''{T}: Add {W}.'' \<and> \<not> sublist ''Ice'' ''{T}: Add {W}.'' \<and>
   preprocessText ''{T}: Add {W}.'' ''Fire // Ice'' = ''{t} add {w}''"
proof -
  have s: "str_split ''Fire // Ice'' '' // '' = [''Fire'', ''Ice'']" by code_simp
  have f: "\<not> sublist ''Fire'' ''{T}: Add {W}.''" by code_simp
  have i: "\<not> sublist ''Ice'' ''{T}: Add {W}.''" by code_simp
  have "\<forall>name \<in> set (str_split ''Fire // Ice'' '' // ''). name = [] \<or> \<not> sublist name ''{T}: Add {W}.''"
    using f i by (simp add: s)
  from symbol_preservation[OF this] s f i show ?thesis by simp
qed

subsection \<open>C7: normalization is idempotent\<close>

text \<open>
  Claim C7: a text that is already an output of \<^verbatim>\<open>preprocessText\<close> is returned
  unchanged when \<^verbatim>\<open>preprocessText\<close> is applied to it again, with the empty
  name (first conjunct) or with a name none of whose parts still occurs in it
  (second conjunct).
\<close>

theorem normalizer_idempotent:
  "preprocessText (preprocessText s nm0) [] = preprocessText s nm0 \<and>
   ((\<forall>name \<in> set (str_split nm '' // ''). name = [] \<or> \<not> sublist name (preprocessText s nm0)) \<longrightarrow>
    preprocessText (preprocessText s nm0) nm = preprocessText s nm0)"
proof (intro conjI impI)
  have "\<forall>name \<in> set (str_split [] '' // ''). name = [] \<or> \<not> sublist name (preprocessText s nm0)"
    by (simp add: str_split_def)
  then show "preprocessText (preprocessText s nm0) [] = preprocessText s nm0"
    by (rule preprocessText_fixed)
next
  assume "\<forall>name \<in> set (str_split nm '' // ''). name = [] \<or> \<not> sublist name (preprocessText s nm0)"
  then show "preprocessText (preprocessText s nm0) nm = preprocessText s nm0"
    by (rule preprocessText_fixed)
qed

theorem normalizer_idempotent_witness:
  "preprocessText ''Fire deals 2 damage. Tap: Draw a card.'' ''Fire // Ice'' = '' deals 2 damage tap draw a card'' \<and>
   str_split ''Fire // Ice'' '' // '' = [''Fire'', ''Ice''] \<and>
   \<not> sublist ''Fire'' '' deals 2 damage tap draw a card'' \<and>
   \<not> sublist ''Ice'' '' deals 2 damage tap draw a card'' \<and>
   preprocessText '' deals 2 damage tap draw a card'' [] = '' deals 2 damage tap draw a card'' \<and>
   preprocessText '' deals 2 damage tap draw a card'' ''Fire // Ice'' = '' deals 2 damage tap draw a card''"
proof -
  have p: "preprocessText ''Fire deals 2 damage. Tap: Draw a card.'' ''Fire // Ice'' = '' deals 2 damage tap draw a card''"
    by code_simp
  have s: "str_split ''Fire // Ice'' '' // '' = [''Fire'', ''Ice'']" by code_simp
  have f: "\<not> sublist ''Fire'' '' deals 2 damage tap draw a card''" by code_simp
  have i: "\<not> sublist ''Ice'' '' deals 2 damage tap draw a card''" by code_simp
  from normalizer_idempotent[of "''Fire deals 2 damage. Tap: Draw a card.''" "''Fire // Ice''" "''Fire // Ice''"]
  show ?thesis using s f i by (simp add: p)
qed

subsection \<open>C8: excluded printings stay out of the corpus\<close>

text \<open>
  Claim C8: for every repository, a card whose printings hold one of the
  excluded set codes (PVAN, PCEL, CMB1, UNH, UST, UND, UGL) is absent from the
  names of the corpus that \<^verbatim>\<open>constructCorpus\<close> builds. The card's printings are
  those of its first face, the only one the filter reads.
\<close>

theorem excluded_printing_absent:
  assumes "constructCorpus cards = Inr (cardNames, cardTexts)"
    and "map_of cards name = Some (f # fs)"
    and "face_printings f = Some ps"
    and "code \<in> set ps" and "code \<in> excludedSets"
  shows "name \<notin> set cardNames"
  using constructCorpus_names[OF assms(1)] isExcluded_printing[OF assms(2-5)] by simp

theorem excluded_printing_absent_witness:
  "constructCorpus sample_cards =
     Inr ([''Brute Force'', ''Spark // Realm'', ''Giant Growth'', ''Grizzly Bears''], snd sample_corpus) \<and>
   map_of sample_cards ''Chaos Confetti'' =
     Some [\<lparr>face_text = Some ''{4}, {T}: Tear Chaos Confetti into pieces.'',
            face_types = Some [''Artifact''], face_printings = Some [''UGL'']\<rparr>] \<and>
   ''UGL'' \<in> excludedSets \<and>
   ''Chaos Confetti'' \<notin> set [''Brute Force'', ''Spark // Realm'', ''Giant Growth'', ''Grizzly Bears'']"
proof -
  have c: "constructCorpus sample_cards =
     Inr ([''Brute Force'', ''Spark // Realm'', ''Giant Growth'', ''Grizzly Bears''], snd sample_corpus)"
    by code_simp
  have m: "map_of sample_cards ''Chaos Confetti'' =
     Some (\<lparr>face_text = Some ''{4}, {T}: Tear Chaos Confetti into pieces.'',
            face_types = Some [''Artifact''], face_printings = Some [''UGL'']\<rparr> # [])"
    by code_simp
  have p: "face_printings \<lparr>face_text = Some ''{4}, {T}: Tear Chaos Confetti into pieces.'',
            face_types = Some [''Artifact''], face_printings = Some [''UGL'']\<rparr> = Some [''UGL'']"
    by simp
  have u: "''UGL'' \<in> set [''UGL'']" by simp
  have e: "''UGL'' \<in> excludedSets" by (simp add: excludedSets_def)
  from excluded_printing_absent[OF c m p u e] c m e show ?thesis by simp
qed

subsection \<open>C9: only the first face decides\<close>

text \<open>
  Claim C9: the exclusion decision depends only on a card's first face. When the
  first face has its types and printings, no type \<^verbatim>\<open>Plane\<close> or \<^verbatim>\<open>Scheme\<close>
  and no excluded printing code, \<^verbatim>\<open>isExcluded\<close> returns false and the card is
  in the corpus that \<^verbatim>\<open>constructCorpus\<close> builds, whatever the later faces \<open>fs\<close>
  hold.
\<close>

theorem first_face_decides:
  assumes "map_of cards name = Some (f # fs)"
    and "face_types f = Some tys" and "''Plane'' \<notin> set tys" and "''Scheme'' \<notin> set tys"
    and "face_printings f = Some ps" and "set ps \<inter> excludedSets = {}"
  shows "isExcluded cards name = Inr False \<and>
         (constructCorpus cards = Inr (cardNames, cardTexts) \<longrightarrow> name \<in> set cardNames)"
proof -
  have ex: "isExcluded cards name = Inr False"
    using assms by (rule isExcluded_first_face)
  have key: "name \<in> set (map fst cards)"
    using map_of_SomeD[OF assms(1)] by force
  show ?thesis
  proof (intro conjI impI)
    show "isExcluded cards name = Inr False" by (rule ex)
  next
    assume "constructCorpus cards = Inr (cardNames, cardTexts)"
    from constructCorpus_names[OF this] ex key show "name \<in> set cardNames" by simp
  qed
qed

text \<open>
  The second face of \<^verbatim>\<open>Spark // Realm\<close> is a \<^verbatim>\<open>Plane\<close> printed in
  \<^verbatim>\<open>UNH\<close>; the card is in the corpus all the same.
\<close>

theorem first_face_decides_witness:
  "map_of sample_cards ''Spark // Realm'' =
     Some [\<lparr>face_text = Some ''Spark deals 2 damage to any target.'',
            face_types = Some [''Instant''], face_printings = Some [''APC'']\<rparr>,
           \<lparr>face_text = Some ''Tap target permanent.'',
            face_types = Some [''Plane''], face_printings = Some [''UNH'']\<rparr>] \<and>
   ''Plane'' \<notin> set [''Instant''] \<and> ''Scheme'' \<notin> set [''Instant''] \<and>
   set [''APC''] \<inter> excludedSets = {} \<and> ''UNH'' \<in> excludedSets \<and>
   isExcluded sample_cards ''Spark // Realm'' = Inr False \<and>
   constructCorpus sample_cards =
     Inr ([''Brute Force'', ''Spark // Realm'', ''Giant Growth'', ''Grizzly Bears''], snd sample_corpus) \<and>
   ''Spark // Realm'' \<in> set [''Brute Force'', ''Spark // Realm'', ''Giant Growth'', ''Grizzly Bears'']"
proof -
  let ?f = "\<lparr>face_text = Some ''Spark deals 2 damage to any target.'',
            face_types = Some [''Instant''], face_printings = Some [''APC'']\<rparr>"
  let ?g = "\<lparr>face_text = Some ''Tap target permanent.'',
            face_types = Some [''Plane''], face_printings = Some [''UNH'']\<rparr>"
  have m: "map_of sample_cards ''Spark // Realm'' = Some (?f # [?g])" by code_simp
  have t: "face_types ?f = Some [''Instant'']" by simp
  have p: "face_printings ?f = Some [''APC'']" by simp
  have n1: "''Plane'' \<notin> set [''Instant'']" by simp
  have n2: "''Scheme'' \<notin> set [''Instant'']" by simp
  have d: "set [''APC''] \<inter> excludedSets = {}" by (simp add: excludedSets_def)
  have u: "''UNH'' \<in> excludedSets" by (simp add: excludedSets_def)
  have c: "constructCorpus sample_cards =
     Inr ([''Brute Force'', ''Spark // Realm'', ''Giant Growth'', ''Grizzly Bears''], snd sample_corpus)"
    by code_simp
  from first_face_decides[OF m t n1 n2 p d,
      of "[''Brute Force'', ''Spark // Realm'', ''Giant Growth'', ''Grizzly Bears'']" "snd sample_corpus"]
  show ?thesis using m d u c by simp
qed

subsection \<open>C10: a card without any text\<close>

text \<open>
  Claim C10: for a card name of the repository none of whose faces has a text
  field, \<^verbatim>\<open>getRawText\<close> returns the empty string and raises nothing; when the
  card is not excluded, the corpus pairs its name with the empty document.
\<close>

theorem textless_card_empty_document:
  assumes "map_of cards name = Some cardEntry"
    and "\<forall>f \<in> set cardEntry. face_text f = None"
  shows "getRawText cards name = Inr [] \<and>
         (isExcluded cards name = Inr False \<longrightarrow>
          constructCorpus cards = Inr (cardNames, cardTexts) \<longrightarrow>
          (name, []) \<in> set (zip cardNames cardTexts))"
proof -
  have raw: "getRawText cards name = Inr []"
    using assms by (simp add: getRawText_def map_filter_all_None)
  have key: "name \<in> set (map fst cards)"
    using map_of_SomeD[OF assms(1)] by force
  show ?thesis
  proof (intro conjI impI)
    show "getRawText cards name = Inr []" by (rule raw)
  next
    assume ex: "isExcluded cards name = Inr False"
      and c: "constructCorpus cards = Inr (cardNames, cardTexts)"
    let ?doc = "\<lambda>k. case getRawText cards k of Inr raw \<Rightarrow> preprocessText raw k | Inl e \<Rightarrow> []"
    have mem: "name \<in> set cardNames"
      using constructCorpus_names[OF c] ex key by simp
    have "cardTexts = map ?doc cardNames" by (rule constructCorpus_texts[OF c])
    then have "zip cardNames cardTexts = map (\<lambda>k. (k, ?doc k)) cardNames"
      by (simp add: zip_map2 zip_same_conv_map)
    moreover have "?doc name = []" by (simp add: raw preprocessText_empty)
    ultimately show "(name, []) \<in> set (zip cardNames cardTexts)"
      using mem by force
  qed
qed

theorem textless_card_empty_document_witness:
  "map_of sample_cards ''Grizzly Bears'' =
     Some [\<lparr>face_text = None, face_types = Some [''Creature''], face_printings = Some [''LEA'']\<rparr>] \<and>
   getRawText sample_cards ''Grizzly Bears'' = Inr [] \<and>
   isExcluded sample_cards ''Grizzly Bears'' = Inr False \<and>
   constructCorpus sample_cards = Inr sample_corpus \<and>
   (''Grizzly Bears'', []) \<in> set (zip (fst sample_corpus) (snd sample_corpus))"
proof -
  let ?f = "\<lparr>face_text = None, face_types = Some [''Creature''], face_printings = Some [''LEA'']\<rparr>"
  have m: "map_of sample_cards ''Grizzly Bears'' = Some [?f]" by code_simp
  have a: "\<forall>f \<in> set [?f]. face_text f = None" by simp
  have e: "isExcluded sample_cards ''Grizzly Bears'' = Inr False" by code_simp
  have c: "constructCorpus sample_cards = Inr (fst sample_corpus, snd sample_corpus)"
    by (simp add: sample_corpus_built)
  from textless_card_empty_document[OF m a, of "fst sample_corpus" "snd sample_corpus"]
  show ?thesis using m e c by simp
qed

end
